theory Spec2Isabelle
  imports Main "HOL-Library.AList"
begin

section \<open>The in-memory credential cache of msal-node: NodeStorage\<close>

text \<open>
  The class \<^verbatim>\<open>NodeStorage\<close> keeps one flat JavaScript object \<^verbatim>\<open>cache\<close> (cache key to
  cache entry) and an array \<^verbatim>\<open>changeEmitters\<close> of zero-argument callbacks. Every method
  is synchronous; \<^verbatim>\<open>clear\<close> is declared \<^verbatim>\<open>async\<close> but never awaits, so its whole body
  runs before the call returns.

  The embedding is by explicit state passing. The cache object is a plain object,
  created by \<^verbatim>\<open>{}\<close>: an association list of its own properties in enumeration order,
  on top of \<^verbatim>\<open>Object.prototype\<close>. A read \<^verbatim>\<open>cache[key]\<close> is \<open>readProperty\<close>: the own
  property when there is one, a member of \<^verbatim>\<open>Object.prototype\<close> for the names it
  defines, and \<open>None\<close> (\<^verbatim>\<open>undefined\<close>) otherwise. \<^verbatim>\<open>cache[key] = value\<close> is
  \<open>AList.update\<close> (in place for an existing key, appended otherwise),
  \<^verbatim>\<open>delete cache[key]\<close> is \<open>AList.delete\<close> (own properties only), and
  \<^verbatim>\<open>Object.keys(cache)\<close> is \<open>map fst\<close>.

  Outside the model: an assignment to the key \<^verbatim>\<open>__proto__\<close>, which JavaScript hands to
  the setter inherited from \<^verbatim>\<open>Object.prototype\<close> (it replaces the prototype or does
  nothing, and creates no own property) and which is an ordinary assignment here;
  cache objects with another prototype; the numeric-key ordering of JavaScript
  objects. Calls of the logger touch neither the cache nor the callbacks and are left
  out.
\<close>

subsection \<open>Cache entries\<close>

text \<open>
  The kinds of cache entry. \<^verbatim>\<open>ValidCacheType\<close> is the union of the eight entity classes
  and \<^verbatim>\<open>string\<close>; an object that belongs to none of the classes has kind \<open>Unknown\<close>.
  The payload \<open>'p\<close> stands for the fields of an entity, which the storage never reads.

  \<open>InheritedValue name\<close> is the value that a read of the property \<open>name\<close> takes from
  \<^verbatim>\<open>Object.prototype\<close>: a built-in function such as \<^verbatim>\<open>toString\<close>, or for \<^verbatim>\<open>__proto__\<close>
  the prototype object itself. It is no \<^verbatim>\<open>ValidCacheType\<close>, but \<^verbatim>\<open>getItem\<close> can return
  it, and \<^verbatim>\<open>updateCredentialCacheKey\<close> stores what \<^verbatim>\<open>getItem\<close> returned.
\<close>

datatype kind =
    Account | IdToken | AccessToken | RefreshToken | AppMetadata
  | ServerTelemetry | Throttling | AuthorityMetadata | Unknown

datatype 'p ValidCacheType =
  StringValue string | EntityValue kind 'p | InheritedValue string

text \<open>
  JavaScript's conversion to boolean, as \<^verbatim>\<open>!!cache[key]\<close> and \<^verbatim>\<open>if (cacheItem)\<close> apply
  it to the result of a property read: \<^verbatim>\<open>undefined\<close> and the empty string are falsy,
  every object, every function and every other string is truthy.
\<close>

fun toBoolean :: "'p ValidCacheType option \<Rightarrow> bool" where
  "toBoolean None = False"
| "toBoolean (Some (StringValue s)) = (s \<noteq> [])"
| "toBoolean (Some (EntityValue c p)) = True"
| "toBoolean (Some (InheritedValue name)) = True"

subsection \<open>The state of a NodeStorage\<close>

type_synonym 'p CacheKVStore = "(string \<times> 'p ValidCacheType) list"

text \<open>
  The property names of \<^verbatim>\<open>Object.prototype\<close>, and the read \<^verbatim>\<open>cache[key]\<close> of a plain
  object: own properties first, then the prototype. None of the inherited properties
  is enumerable, so \<^verbatim>\<open>Object.keys\<close>, \<^verbatim>\<open>for ... in\<close> and the object spread see own
  properties only.
\<close>

definition objectPrototypeKeys :: "string list" where
  "objectPrototypeKeys =
     [''constructor'', ''__proto__'', ''hasOwnProperty'', ''isPrototypeOf'',
      ''propertyIsEnumerable'', ''toLocaleString'', ''toString'', ''valueOf'',
      ''__defineGetter__'', ''__defineSetter__'', ''__lookupGetter__'', ''__lookupSetter__'']"

definition readProperty :: "'p CacheKVStore \<Rightarrow> string \<Rightarrow> 'p ValidCacheType option" where
  "readProperty c key =
     (case map_of c key of
        Some v \<Rightarrow> Some v
      | None \<Rightarrow> if key \<in> set objectPrototypeKeys then Some (InheritedValue key) else None)"

text \<open>
  A callback is an opaque function of no argument: it is represented by an identifier
  \<open>'f\<close>, and calling it (\<^verbatim>\<open>func.call(null)\<close>) is recorded in the ghost field \<open>calls\<close>
  together with the cache the callback can read at that moment. Callbacks that call
  back into the storage are outside the model.
\<close>

record ('p, 'f) NodeStorage =
  cache :: "'p CacheKVStore"
  changeEmitters :: "'f list"
  calls :: "('f \<times> 'p CacheKVStore) list"

record 'p InMemoryCache =
  accounts :: "'p CacheKVStore"
  idTokens :: "'p CacheKVStore"
  accessTokens :: "'p CacheKVStore"
  refreshTokens :: "'p CacheKVStore"
  appMetadata :: "'p CacheKVStore"

subsection \<open>Change notification\<close>

definition registerChangeEmitter ::
  "'f \<Rightarrow> ('p, 'f) NodeStorage \<Rightarrow> ('p, 'f) NodeStorage" where
  "registerChangeEmitter func st = st\<lparr>changeEmitters := changeEmitters st @ [func]\<rparr>"

definition emitChange :: "('p, 'f) NodeStorage \<Rightarrow> ('p, 'f) NodeStorage" where
  "emitChange st =
     st\<lparr>calls := calls st @ map (\<lambda>func. (func, cache st)) (changeEmitters st)\<rparr>"

text \<open>How often the callback \<open>func\<close> has been called so far.\<close>

definition invocations :: "'f \<Rightarrow> ('p, 'f) NodeStorage \<Rightarrow> nat" where
  "invocations func st = length (filter (\<lambda>c. fst c = func) (calls st))"

subsection \<open>The flat store\<close>

definition getCache :: "('p, 'f) NodeStorage \<Rightarrow> 'p CacheKVStore" where
  "getCache st = cache st"

definition setCache ::
  "'p CacheKVStore \<Rightarrow> ('p, 'f) NodeStorage \<Rightarrow> ('p, 'f) NodeStorage" where
  "setCache c st = emitChange (st\<lparr>cache := c\<rparr>)"

definition getItem :: "('p, 'f) NodeStorage \<Rightarrow> string \<Rightarrow> 'p ValidCacheType option" where
  "getItem st key = readProperty (getCache st) key"

definition setItem ::
  "string \<Rightarrow> 'p ValidCacheType \<Rightarrow> ('p, 'f) NodeStorage \<Rightarrow> ('p, 'f) NodeStorage" where
  "setItem key v st = setCache (AList.update key v (getCache st)) st"

text \<open>
  \<^verbatim>\<open>removeItem\<close> deletes only when the property read is truthy; the deletion removes
  an own property and does nothing for an inherited one. It then calls \<^verbatim>\<open>setCache\<close>,
  which notifies, and \<^verbatim>\<open>emitChange\<close> once more.
\<close>

definition removeItem ::
  "string \<Rightarrow> ('p, 'f) NodeStorage \<Rightarrow> bool \<times> ('p, 'f) NodeStorage" where
  "removeItem key st =
     (if toBoolean (readProperty (getCache st) key)
      then (True, emitChange (setCache (AList.delete key (getCache st)) st))
      else (False, st))"

definition getKeys :: "('p, 'f) NodeStorage \<Rightarrow> string list" where
  "getKeys st = map fst (getCache st)"

definition containsKey :: "('p, 'f) NodeStorage \<Rightarrow> string \<Rightarrow> bool" where
  "containsKey st key = (key \<in> set (getKeys st))"

text \<open>
  \<^verbatim>\<open>clear\<close> takes the keys once, calls \<^verbatim>\<open>removeItem\<close> on each of them and drops
  the result, then calls \<^verbatim>\<open>emitChange\<close>.
\<close>

definition clear :: "('p, 'f) NodeStorage \<Rightarrow> ('p, 'f) NodeStorage" where
  "clear st = emitChange (fold (\<lambda>key s. snd (removeItem key s)) (getKeys st) st)"

subsection \<open>The bucketed view\<close>

text \<open>
  The classes \<^verbatim>\<open>AccountEntity\<close>, ... of msal-common are not among the sources, so
  the test \<^verbatim>\<open>cache[key] instanceof C\<close> is a parameter \<open>instanceOf v C\<close>. One round of
  the loop of \<^verbatim>\<open>cacheToInMemoryCache\<close> files the entry under \<open>key\<close> in the bucket of the
  first class of the chain that accepts it, or in none. The loop runs over the own
  keys of \<open>cache\<close>, for which the read \<^verbatim>\<open>cache[key]\<close> is the own property.
\<close>

definition emptyInMemoryCache :: "'p InMemoryCache" where
  "emptyInMemoryCache =
     \<lparr>accounts = [], idTokens = [], accessTokens = [], refreshTokens = [], appMetadata = []\<rparr>"

definition classifyEntry ::
  "('p ValidCacheType \<Rightarrow> kind \<Rightarrow> bool) \<Rightarrow> 'p CacheKVStore \<Rightarrow> string
     \<Rightarrow> 'p InMemoryCache \<Rightarrow> 'p InMemoryCache" where
  "classifyEntry instanceOf c key inMemoryCache =
     (case map_of c key of
        None \<Rightarrow> inMemoryCache
      | Some v \<Rightarrow>
          if instanceOf v Account
          then inMemoryCache\<lparr>accounts := AList.update key v (accounts inMemoryCache)\<rparr>
          else if instanceOf v IdToken
          then inMemoryCache\<lparr>idTokens := AList.update key v (idTokens inMemoryCache)\<rparr>
          else if instanceOf v AccessToken
          then inMemoryCache\<lparr>accessTokens := AList.update key v (accessTokens inMemoryCache)\<rparr>
          else if instanceOf v RefreshToken
          then inMemoryCache\<lparr>refreshTokens := AList.update key v (refreshTokens inMemoryCache)\<rparr>
          else if instanceOf v AppMetadata
          then inMemoryCache\<lparr>appMetadata := AList.update key v (appMetadata inMemoryCache)\<rparr>
          else inMemoryCache)"

definition cacheToInMemoryCache ::
  "('p ValidCacheType \<Rightarrow> kind \<Rightarrow> bool) \<Rightarrow> 'p CacheKVStore \<Rightarrow> 'p InMemoryCache" where
  "cacheToInMemoryCache instanceOf c =
     fold (classifyEntry instanceOf c) (map fst c) emptyInMemoryCache"

text \<open>
  An object spread \<^verbatim>\<open>{...target, ...source}\<close> copies the own properties of \<open>source\<close>
  in their order: each key is read from \<open>source\<close> and assigned in the new object.
\<close>

definition spread :: "'p CacheKVStore \<Rightarrow> 'p CacheKVStore \<Rightarrow> 'p CacheKVStore" where
  "spread target source =
     fold (\<lambda>key t. case map_of source key of None \<Rightarrow> t | Some v \<Rightarrow> AList.update key v t)
       (map fst source) target"

definition inMemoryCacheToCache ::
  "'p InMemoryCache \<Rightarrow> ('p, 'f) NodeStorage \<Rightarrow> 'p CacheKVStore" where
  "inMemoryCacheToCache inMemoryCache st =
     spread (spread (spread (spread (spread (spread [] (getCache st))
       (accounts inMemoryCache)) (idTokens inMemoryCache)) (accessTokens inMemoryCache))
       (refreshTokens inMemoryCache)) (appMetadata inMemoryCache)"

definition getInMemoryCache ::
  "('p ValidCacheType \<Rightarrow> kind \<Rightarrow> bool) \<Rightarrow> ('p, 'f) NodeStorage \<Rightarrow> 'p InMemoryCache" where
  "getInMemoryCache instanceOf st = cacheToInMemoryCache instanceOf (getCache st)"

definition setInMemoryCache ::
  "'p InMemoryCache \<Rightarrow> ('p, 'f) NodeStorage \<Rightarrow> ('p, 'f) NodeStorage" where
  "setInMemoryCache inMemoryCache st =
     emitChange (setCache (inMemoryCacheToCache inMemoryCache st) st)"

subsection \<open>Typed getters\<close>

text \<open>
  Each getter reads the item and hands it (\<^verbatim>\<open>undefined\<close> included) to the classifier
  of its kind, a static method of msal-common that is not among the sources and is a
  parameter here. The classifier of \<^verbatim>\<open>AppMetadataEntity\<close> also takes the key.
\<close>

definition getAccount ::
  "('p ValidCacheType option \<Rightarrow> bool) \<Rightarrow> ('p, 'f) NodeStorage \<Rightarrow> string
     \<Rightarrow> 'p ValidCacheType option" where
  "getAccount isAccountEntity st accountKey =
     (let account = getItem st accountKey
      in if isAccountEntity account then account else None)"

definition getIdTokenCredential ::
  "('p ValidCacheType option \<Rightarrow> bool) \<Rightarrow> ('p, 'f) NodeStorage \<Rightarrow> string
     \<Rightarrow> 'p ValidCacheType option" where
  "getIdTokenCredential isIdTokenEntity st idTokenKey =
     (let idToken = getItem st idTokenKey
      in if isIdTokenEntity idToken then idToken else None)"

definition getAccessTokenCredential ::
  "('p ValidCacheType option \<Rightarrow> bool) \<Rightarrow> ('p, 'f) NodeStorage \<Rightarrow> string
     \<Rightarrow> 'p ValidCacheType option" where
  "getAccessTokenCredential isAccessTokenEntity st accessTokenKey =
     (let accessToken = getItem st accessTokenKey
      in if isAccessTokenEntity accessToken then accessToken else None)"

definition getRefreshTokenCredential ::
  "('p ValidCacheType option \<Rightarrow> bool) \<Rightarrow> ('p, 'f) NodeStorage \<Rightarrow> string
     \<Rightarrow> 'p ValidCacheType option" where
  "getRefreshTokenCredential isRefreshTokenEntity st refreshTokenKey =
     (let refreshToken = getItem st refreshTokenKey
      in if isRefreshTokenEntity refreshToken then refreshToken else None)"

definition getAppMetadata ::
  "(string \<Rightarrow> 'p ValidCacheType option \<Rightarrow> bool) \<Rightarrow> ('p, 'f) NodeStorage \<Rightarrow> string
     \<Rightarrow> 'p ValidCacheType option" where
  "getAppMetadata isAppMetadataEntity st appMetadataKey =
     (let appMetadata = getItem st appMetadataKey
      in if isAppMetadataEntity appMetadataKey appMetadata then appMetadata else None)"

subsection \<open>Repair of a credential's cache key\<close>

text \<open>
  \<^verbatim>\<open>credential.generateCredentialKey()\<close> is a method of msal-common; the key generator
  is the parameter \<open>generateCredentialKey\<close>.
\<close>

definition updateCredentialCacheKey ::
  "('c \<Rightarrow> string) \<Rightarrow> string \<Rightarrow> 'c \<Rightarrow> ('p, 'f) NodeStorage
     \<Rightarrow> string \<times> ('p, 'f) NodeStorage" where
  "updateCredentialCacheKey generateCredentialKey currentCacheKey credential st =
     (let updatedCacheKey = generateCredentialKey credential
      in if currentCacheKey \<noteq> updatedCacheKey
         then (case getItem st currentCacheKey of
                 None \<Rightarrow> (currentCacheKey, st)
               | Some cacheItem \<Rightarrow>
                   if toBoolean (Some cacheItem)
                   then (updatedCacheKey,
                         setItem updatedCacheKey cacheItem (snd (removeItem currentCacheKey st)))
                   else (currentCacheKey, st))
         else (currentCacheKey, st))"

subsection \<open>Collaborators that are not among the sources\<close>

text \<open>
  Modelled from the spec: the classifiers \<^verbatim>\<open>AccountEntity.isAccountEntity\<close>,
  \<^verbatim>\<open>IdTokenEntity.isIdTokenEntity\<close>, ... of msal-common are missing. The spec makes a
  cache entry a tagged value and lets the classifier of a kind decide "whether it is a
  valid instance of that kind": an item is accepted when it is an entity that carries
  the tag of the kind and the kind's own check \<open>valid\<close> accepts its fields;
  \<^verbatim>\<open>undefined\<close>, strings and the members of \<^verbatim>\<open>Object.prototype\<close> are rejected.
\<close>

fun isEntityOfKind :: "kind \<Rightarrow> ('p \<Rightarrow> bool) \<Rightarrow> 'p ValidCacheType option \<Rightarrow> bool" where
  "isEntityOfKind K valid (Some (EntityValue c p)) = (c = K \<and> valid p)"
| "isEntityOfKind K valid (Some (StringValue s)) = False"
| "isEntityOfKind K valid (Some (InheritedValue name)) = False"
| "isEntityOfKind K valid None = False"

text \<open>
  Modelled from the spec: the classifiers of the five bucketed kinds, each with the
  validity check of its kind; the one of \<^verbatim>\<open>AppMetadataEntity\<close> is handed the key too.
\<close>

definition isAccountEntity :: "('p \<Rightarrow> bool) \<Rightarrow> 'p ValidCacheType option \<Rightarrow> bool" where
  "isAccountEntity valid entity = isEntityOfKind Account valid entity"

definition isIdTokenEntity :: "('p \<Rightarrow> bool) \<Rightarrow> 'p ValidCacheType option \<Rightarrow> bool" where
  "isIdTokenEntity valid entity = isEntityOfKind IdToken valid entity"

definition isAccessTokenEntity :: "('p \<Rightarrow> bool) \<Rightarrow> 'p ValidCacheType option \<Rightarrow> bool" where
  "isAccessTokenEntity valid entity = isEntityOfKind AccessToken valid entity"

definition isRefreshTokenEntity :: "('p \<Rightarrow> bool) \<Rightarrow> 'p ValidCacheType option \<Rightarrow> bool" where
  "isRefreshTokenEntity valid entity = isEntityOfKind RefreshToken valid entity"

definition isAppMetadataEntity ::
  "(string \<Rightarrow> 'p \<Rightarrow> bool) \<Rightarrow> string \<Rightarrow> 'p ValidCacheType option \<Rightarrow> bool" where
  "isAppMetadataEntity valid key entity = isEntityOfKind AppMetadata (valid key) entity"

text \<open>
  Modelled from the spec: the entity classes are missing as well. With entries as tagged
  values, \<^verbatim>\<open>v instanceof C\<close> holds when \<open>v\<close> is an entity tagged \<open>C\<close>; a string is an
  instance of no class.
\<close>

fun instanceOfClass :: "'p ValidCacheType \<Rightarrow> kind \<Rightarrow> bool" where
  "instanceOfClass (EntityValue c p) K = (c = K)"
| "instanceOfClass (StringValue s) K = False"
| "instanceOfClass (InheritedValue name) K = False"

text \<open>
  Modelled from the spec: \<^verbatim>\<open>generateCredentialKey\<close> is missing; the spec makes it "a pure
  function of a defined subset of that entity's identifying fields". In the examples
  the payload of a credential is the text of those fields, and the key is that text.
\<close>

fun payloadKey :: "string ValidCacheType \<Rightarrow> string" where
  "payloadKey (EntityValue c p) = p"
| "payloadKey (StringValue s) = s"
| "payloadKey (InheritedValue name) = name"

subsection \<open>Consecutive calls\<close>


section \<open>Properties\<close>

subsection \<open>Effects of the basic operations\<close>

lemma calls_emitChange:
  "calls (emitChange st) = calls st @ map (\<lambda>func. (func, cache st)) (changeEmitters st)"
  by (simp add: emitChange_def)

lemma cache_emitChange: "cache (emitChange st) = cache st"
  by (simp add: emitChange_def)

lemma changeEmitters_emitChange: "changeEmitters (emitChange st) = changeEmitters st"
  by (simp add: emitChange_def)

lemma count_calls:
  "length (filter (\<lambda>c. fst c = func) (map (\<lambda>g. (g, c0)) fs)) = count_list fs func"
  by (induction fs) auto

lemma invocations_emitChange:
  "invocations func (emitChange st) = invocations func st + count_list (changeEmitters st) func"
  unfolding invocations_def calls_emitChange filter_append length_append count_calls ..

lemma cache_setCache: "cache (setCache c st) = c"
  by (simp add: setCache_def emitChange_def)

lemma changeEmitters_setCache: "changeEmitters (setCache c st) = changeEmitters st"
  by (simp add: setCache_def emitChange_def)

lemma calls_setCache:
  "calls (setCache c st) = calls st @ map (\<lambda>func. (func, c)) (changeEmitters st)"
  by (simp add: setCache_def emitChange_def)

lemma invocations_setCache:
  "invocations func (setCache c st) = invocations func st + count_list (changeEmitters st) func"
  unfolding invocations_def calls_setCache filter_append length_append count_calls ..

lemma readProperty_own: "key \<in> fst ` set c \<Longrightarrow> readProperty c key = map_of c key"
  by (auto simp: readProperty_def map_of_eq_None_iff split: option.splits)


lemma readProperty_delete: "key' \<noteq> key \<Longrightarrow> readProperty (AList.delete key c) key' = readProperty c key'"
  by (simp add: readProperty_def)

lemma cache_removeItem:
  "cache (snd (removeItem key st)) =
     (if toBoolean (readProperty (cache st) key) then AList.delete key (cache st) else cache st)"
  by (simp add: removeItem_def getCache_def cache_emitChange cache_setCache)

lemma changeEmitters_removeItem: "changeEmitters (snd (removeItem key st)) = changeEmitters st"
  by (simp add: removeItem_def changeEmitters_emitChange changeEmitters_setCache)

lemma invocations_removeItem:
  "invocations func (snd (removeItem key st)) =
     invocations func st +
       (if toBoolean (readProperty (cache st) key) then 2 * count_list (changeEmitters st) func
        else 0)"
  by (simp add: removeItem_def getCache_def invocations_emitChange invocations_setCache
      changeEmitters_setCache)

lemma fold_removeItem:
  "distinct ks \<Longrightarrow> \<forall>key \<in> set ks. toBoolean (readProperty (cache st) key) \<Longrightarrow>
   cache (fold (\<lambda>key s. snd (removeItem key s)) ks st) = fold AList.delete ks (cache st) \<and>
   changeEmitters (fold (\<lambda>key s. snd (removeItem key s)) ks st) = changeEmitters st \<and>
   invocations func (fold (\<lambda>key s. snd (removeItem key s)) ks st) =
     invocations func st + 2 * length ks * count_list (changeEmitters st) func"
proof (induction ks arbitrary: st)
  case Nil
  then show ?case by simp
next
  case (Cons k ks)
  let ?s = "snd (removeItem k st)"
  from Cons.prems have k: "toBoolean (readProperty (cache st) k)" by simp
  have c: "cache ?s = AList.delete k (cache st)" using k by (simp add: cache_removeItem)
  have "toBoolean (readProperty (cache ?s) key)" if "key \<in> set ks" for key
  proof -
    from that Cons.prems have "key \<noteq> k" "toBoolean (readProperty (cache st) key)" by auto
    then show ?thesis by (simp add: c readProperty_delete)
  qed
  then have "\<forall>key \<in> set ks. toBoolean (readProperty (cache ?s) key)" by blast
  with Cons.prems Cons.IH[of ?s] show ?case
    using k by (simp add: c changeEmitters_removeItem invocations_removeItem algebra_simps)
qed

lemma keys_fold_delete: "fst ` set (fold AList.delete ks c) = fst ` set c - set ks"
  by (induction ks arbitrary: c) (auto simp: AList.delete_eq)

lemma fold_delete_all: "fold AList.delete (map fst c) c = []"
  using keys_fold_delete [of "map fst c" c] by simp

lemma cache_setItem: "cache (setItem key v st) = AList.update key v (cache st)"
  by (simp add: setItem_def getCache_def cache_setCache)




lemma updateCredentialCacheKey_cases:
  "updateCredentialCacheKey genK oldKey e st =
     (if genK e = oldKey then (oldKey, st)
      else case getItem st oldKey of
        None \<Rightarrow> (oldKey, st)
      | Some v \<Rightarrow> if toBoolean (Some v)
          then (genK e, setItem (genK e) v (snd (removeItem oldKey st)))
          else (oldKey, st))"
  by (auto simp: updateCredentialCacheKey_def Let_def split: option.splits)

lemma cache_relocate:
  "getItem st oldKey = Some v \<Longrightarrow> toBoolean (Some v) \<Longrightarrow>
   cache (setItem newKey v (snd (removeItem oldKey st))) =
     AList.update newKey v (AList.delete oldKey (cache st))"
  by (simp add: cache_setItem cache_removeItem getItem_def getCache_def)



lemma key_of_Some: "map_of c key = Some v \<Longrightarrow> key \<in> set (map fst c)"
  by (metis map_of_eq_None_iff option.distinct(1) set_map)

subsection \<open>Effects of the conversions\<close>

lemma fold_classifyEntry_accounts:
  "map_of (accounts (fold (classifyEntry inst c) ks acc)) key =
     (case map_of c key of
        None \<Rightarrow> map_of (accounts acc) key
      | Some v \<Rightarrow> if key \<in> set ks \<and> inst v Account then Some v else map_of (accounts acc) key)"
  by (induction ks arbitrary: acc)
     (auto simp: classifyEntry_def update_conv' split: option.splits)

lemma fold_classifyEntry_idTokens:
  "map_of (idTokens (fold (classifyEntry inst c) ks acc)) key =
     (case map_of c key of
        None \<Rightarrow> map_of (idTokens acc) key
      | Some v \<Rightarrow> if key \<in> set ks \<and> \<not> inst v Account \<and> inst v IdToken then Some v
                  else map_of (idTokens acc) key)"
  by (induction ks arbitrary: acc)
     (auto simp: classifyEntry_def update_conv' split: option.splits)

lemma fold_classifyEntry_accessTokens:
  "map_of (accessTokens (fold (classifyEntry inst c) ks acc)) key =
     (case map_of c key of
        None \<Rightarrow> map_of (accessTokens acc) key
      | Some v \<Rightarrow> if key \<in> set ks \<and> \<not> inst v Account \<and> \<not> inst v IdToken \<and> inst v AccessToken
                  then Some v else map_of (accessTokens acc) key)"
  by (induction ks arbitrary: acc)
     (auto simp: classifyEntry_def update_conv' split: option.splits)

lemma fold_classifyEntry_refreshTokens:
  "map_of (refreshTokens (fold (classifyEntry inst c) ks acc)) key =
     (case map_of c key of
        None \<Rightarrow> map_of (refreshTokens acc) key
      | Some v \<Rightarrow> if key \<in> set ks \<and> \<not> inst v Account \<and> \<not> inst v IdToken \<and> \<not> inst v AccessToken
                     \<and> inst v RefreshToken
                  then Some v else map_of (refreshTokens acc) key)"
  by (induction ks arbitrary: acc)
     (auto simp: classifyEntry_def update_conv' split: option.splits)

lemma fold_classifyEntry_appMetadata:
  "map_of (appMetadata (fold (classifyEntry inst c) ks acc)) key =
     (case map_of c key of
        None \<Rightarrow> map_of (appMetadata acc) key
      | Some v \<Rightarrow> if key \<in> set ks \<and> \<not> inst v Account \<and> \<not> inst v IdToken \<and> \<not> inst v AccessToken
                     \<and> \<not> inst v RefreshToken \<and> inst v AppMetadata
                  then Some v else map_of (appMetadata acc) key)"
  by (induction ks arbitrary: acc)
     (auto simp: classifyEntry_def update_conv' split: option.splits)

lemma fold_spread:
  "map_of (fold (\<lambda>key t. case map_of s key of None \<Rightarrow> t | Some v \<Rightarrow> AList.update key v t) ks t) k =
     (case map_of s k of None \<Rightarrow> map_of t k
      | Some v \<Rightarrow> if k \<in> set ks then Some v else map_of t k)"
  by (induction ks arbitrary: t) (auto simp: update_conv' split: option.splits)

lemma map_of_spread: "map_of (spread t s) = map_of t ++ map_of s"
proof
  fix k
  show "map_of (spread t s) k = (map_of t ++ map_of s) k"
    unfolding spread_def fold_spread
    by (auto simp: map_add_def split: option.splits dest: key_of_Some)
qed

subsection \<open>Keys stay unique\<close>

text \<open>
  A JavaScript object has every key once. The operations keep the association list
  that way, so a hypothesis of unique keys holds of every store they produce.
\<close>

lemma distinct_setItem: "distinct (getKeys st) \<Longrightarrow> distinct (getKeys (setItem key v st))"
  by (simp add: getKeys_def getCache_def cache_setItem distinct_update)

lemma distinct_removeItem:
  "distinct (getKeys st) \<Longrightarrow> distinct (getKeys (snd (removeItem key st)))"
  by (simp add: getKeys_def getCache_def cache_removeItem distinct_delete)

lemma distinct_spread: "distinct (map fst t) \<Longrightarrow> distinct (map fst (spread t s))"
proof -
  have "distinct (map fst t) \<Longrightarrow>
    distinct (map fst (fold (\<lambda>key t. case map_of s key of None \<Rightarrow> t
      | Some v \<Rightarrow> AList.update key v t) ks t))" for ks
    by (induction ks arbitrary: t) (auto simp: distinct_update split: option.splits)
  then show "distinct (map fst t) \<Longrightarrow> distinct (map fst (spread t s))"
    by (simp add: spread_def)
qed

lemma distinct_setInMemoryCache: "distinct (getKeys (setInMemoryCache inMemoryCache st))"
  by (simp add: getKeys_def getCache_def setInMemoryCache_def cache_emitChange cache_setCache
      inMemoryCacheToCache_def distinct_spread)

subsection \<open>clear\<close>

text \<open>
  Claim C1, as amended. In a store with unique keys whose entries are all truthy,
  \<^verbatim>\<open>clear()\<close> leaves no key behind. Every callback is called twice for each key
  removed (by \<^verbatim>\<open>removeItem\<close>) and once more by \<^verbatim>\<open>clear\<close> itself: \<open>2 * n + 1\<close> times for
  \<open>n\<close> keys and a callback registered once, not once. The last round of calls comes
  after all removals and reads the empty cache.
\<close>

theorem clear_removes_all_notifies_each_removal:
  assumes "distinct (getKeys st)"
    and "\<forall>key \<in> set (getKeys st). toBoolean (getItem st key)"
  shows "getKeys (clear st) = [] \<and>
         (\<forall>func. invocations func (clear st) =
            invocations func st + (2 * length (getKeys st) + 1) * count_list (changeEmitters st) func) \<and>
         (\<exists>earlier. calls (clear st) = earlier @ map (\<lambda>func. (func, [])) (changeEmitters st))"
proof -
  let ?ks = "map fst (cache st)"
  let ?s = "fold (\<lambda>key s. snd (removeItem key s)) ?ks st"
  have gk: "getKeys st = ?ks" by (simp add: getKeys_def getCache_def)
  from assms have pre: "distinct ?ks"
    "\<forall>key \<in> set ?ks. toBoolean (readProperty (cache st) key)"
    by (simp_all add: gk getItem_def getCache_def)
  have f: "cache ?s = fold AList.delete ?ks (cache st)"
    "changeEmitters ?s = changeEmitters st"
    "\<And>func. invocations func ?s =
       invocations func st + 2 * length ?ks * count_list (changeEmitters st) func"
    using fold_removeItem [OF pre] by blast+
  have e: "cache ?s = []"
    unfolding f(1) by (rule fold_delete_all)
  have cl: "clear st = emitChange ?s"
    by (simp add: clear_def gk)
  have "getKeys (clear st) = []"
    unfolding cl getKeys_def getCache_def cache_emitChange e by simp
  moreover have "invocations func (clear st) =
      invocations func st + (2 * length (getKeys st) + 1) * count_list (changeEmitters st) func"
    for func
    unfolding cl gk invocations_emitChange f by simp
  moreover have "calls (clear st) = calls ?s @ map (\<lambda>func. (func, [])) (changeEmitters st)"
    unfolding cl calls_emitChange e f(2) ..
  ultimately show ?thesis by blast
qed

text \<open>
  A store with five keys and one callback: after \<^verbatim>\<open>clear()\<close> no key is left, and the
  callback has been called eleven times.
\<close>

theorem clear_single_notification_counterexample:
  "toBoolean (Some (EntityValue Account ''p1'')) \<and>
   toBoolean (Some (EntityValue IdToken ''p2'')) \<and>
   toBoolean (Some (EntityValue Throttling ''p3'')) \<and>
   toBoolean (Some (StringValue ''s4'')) \<and>
   toBoolean (Some (EntityValue Unknown ''p5'')) \<and>
   getKeys (clear \<lparr>cache = [(''k1'', EntityValue Account ''p1''),
       (''k2'', EntityValue IdToken ''p2''), (''k3'', EntityValue Throttling ''p3''),
       (''k4'', StringValue ''s4''), (''k5'', EntityValue Unknown ''p5'')],
     changeEmitters = [0::nat], calls = []\<rparr>) = [] \<and>
   invocations 0 (clear \<lparr>cache = [(''k1'', EntityValue Account ''p1''),
       (''k2'', EntityValue IdToken ''p2''), (''k3'', EntityValue Throttling ''p3''),
       (''k4'', StringValue ''s4''), (''k5'', EntityValue Unknown ''p5'')],
     changeEmitters = [0::nat], calls = []\<rparr>) = 11"
  by (simp add: clear_def getKeys_def getCache_def removeItem_def setCache_def emitChange_def
      invocations_def
      readProperty_def objectPrototypeKeys_def)

theorem clear_removes_all_notifies_each_removal_witness:
  "getKeys (clear \<lparr>cache = [(''k1'', EntityValue Account ''p1''), (''k2'', StringValue ''s2'')],
     changeEmitters = [0::nat], calls = []\<rparr>) = [] \<and>
   invocations 0 (clear \<lparr>cache = [(''k1'', EntityValue Account ''p1''), (''k2'', StringValue ''s2'')],
     changeEmitters = [0::nat], calls = []\<rparr>) = 5"
  using clear_removes_all_notifies_each_removal
    [of "\<lparr>cache = [(''k1'', EntityValue Account ''p1''), (''k2'', StringValue ''s2'')],
     changeEmitters = [0::nat], calls = []\<rparr>"]
  by (simp add: getKeys_def getCache_def getItem_def invocations_def
      readProperty_def objectPrototypeKeys_def)

subsection \<open>updateCredentialCacheKey\<close>

text \<open>
  Claim C2, as amended. Let \<open>r\<close> be the key that \<^verbatim>\<open>updateCredentialCacheKey(k, e)\<close>
  returns. A following call on the returned key, \<^verbatim>\<open>updateCredentialCacheKey(r, e)\<close>,
  returns \<open>r\<close> again and changes nothing. Whenever \<open>r\<close> differs from \<open>k\<close>,
  \<^verbatim>\<open>containsKey(k)\<close> is false afterward. (A second call with the old key \<open>k\<close> itself
  does not return \<open>r\<close> after a relocation: it finds nothing under \<open>k\<close> and returns \<open>k\<close>.)
\<close>

theorem updateCredentialCacheKey_idempotent_on_result:
  assumes "updateCredentialCacheKey genK k e st = (r, st')"
  shows "updateCredentialCacheKey genK r e st' = (r, st') \<and> (r \<noteq> k \<longrightarrow> \<not> containsKey st' k)"
proof (cases "genK e = k \<or> \<not> toBoolean (getItem st k)")
  case True
  with assms have "r = k" "st' = st"
    by (auto simp: updateCredentialCacheKey_cases split: option.splits if_splits)
  with assms show ?thesis by simp
next
  case False
  then obtain v where v: "getItem st k = Some v" "toBoolean (Some v)"
    by (cases "getItem st k") auto
  from assms False v have r: "r = genK e"
    and st': "st' = setItem (genK e) v (snd (removeItem k st))"
    by (auto simp: updateCredentialCacheKey_cases)
  have c: "cache st' = AList.update (genK e) v (AList.delete k (cache st))"
    unfolding st' using v by (rule cache_relocate)
  have "\<not> containsKey st' k"
    using False by (auto simp: containsKey_def getKeys_def getCache_def c dom_update AList.delete_eq)
  moreover have "updateCredentialCacheKey genK r e st' = (r, st')"
    by (simp add: r updateCredentialCacheKey_cases)
  ultimately show ?thesis by simp
qed

theorem updateCredentialCacheKey_idempotent_on_result_witness:
  "updateCredentialCacheKey payloadKey ''old'' (EntityValue AccessToken ''new'')
     \<lparr>cache = [(''old'', EntityValue AccessToken ''new'')], changeEmitters = [0::nat], calls = []\<rparr> =
     (''new'', \<lparr>cache = [(''new'', EntityValue AccessToken ''new'')], changeEmitters = [0::nat],
        calls = [(0, []), (0, []), (0, [(''new'', EntityValue AccessToken ''new'')])]\<rparr>) \<and>
   updateCredentialCacheKey payloadKey ''new'' (EntityValue AccessToken ''new'')
     \<lparr>cache = [(''new'', EntityValue AccessToken ''new'')], changeEmitters = [0::nat],
        calls = [(0, []), (0, []), (0, [(''new'', EntityValue AccessToken ''new'')])]\<rparr> =
     (''new'', \<lparr>cache = [(''new'', EntityValue AccessToken ''new'')], changeEmitters = [0::nat],
        calls = [(0, []), (0, []), (0, [(''new'', EntityValue AccessToken ''new'')])]\<rparr>) \<and>
   \<not> containsKey \<lparr>cache = [(''new'', EntityValue AccessToken ''new'')], changeEmitters = [0::nat],
        calls = [(0, []), (0, []), (0, [(''new'', EntityValue AccessToken ''new'')])]\<rparr> ''old''"
proof -
  have first: "updateCredentialCacheKey payloadKey ''old'' (EntityValue AccessToken ''new'')
     \<lparr>cache = [(''old'', EntityValue AccessToken ''new'')], changeEmitters = [0::nat], calls = []\<rparr> =
     (''new'', \<lparr>cache = [(''new'', EntityValue AccessToken ''new'')], changeEmitters = [0::nat],
        calls = [(0, []), (0, []), (0, [(''new'', EntityValue AccessToken ''new'')])]\<rparr>)"
    by (simp add: updateCredentialCacheKey_def Let_def getItem_def getCache_def removeItem_def
        setItem_def setCache_def emitChange_def
      readProperty_def objectPrototypeKeys_def)
  from updateCredentialCacheKey_idempotent_on_result [OF first] first show ?thesis by simp
qed

text \<open>
  The same call made twice: the store holds an access token under \<open>old\<close> whose
  canonical key is \<open>new\<close>. The first call returns \<open>new\<close>, the second returns \<open>old\<close>.
\<close>

theorem updateCredentialCacheKey_twice_counterexample:
  "fst (updateCredentialCacheKey payloadKey ''old'' (EntityValue AccessToken ''new'')
     \<lparr>cache = [(''old'', EntityValue AccessToken ''new'')], changeEmitters = [0::nat], calls = []\<rparr>)
     = ''new'' \<and>
   fst (updateCredentialCacheKey payloadKey ''old'' (EntityValue AccessToken ''new'')
     (snd (updateCredentialCacheKey payloadKey ''old'' (EntityValue AccessToken ''new'')
       \<lparr>cache = [(''old'', EntityValue AccessToken ''new'')], changeEmitters = [0::nat], calls = []\<rparr>)))
     = ''old''"
  by (simp add: updateCredentialCacheKey_def Let_def getItem_def getCache_def removeItem_def
      setItem_def setCache_def emitChange_def
      readProperty_def objectPrototypeKeys_def)

text \<open>
  Claim C5. The claim: \<^verbatim>\<open>updateCredentialCacheKey(oldKey, e)\<close> with \<open>newKey = genK e\<close>
  different from \<open>oldKey\<close> leaves the store unchanged and returns \<open>oldKey\<close> when no value
  is stored under \<open>oldKey\<close>, and otherwise moves the value to \<open>newKey\<close> and returns
  \<open>newKey\<close>. The code decides by the truthiness of the read \<^verbatim>\<open>cache[oldKey]\<close>, and
  departs from the claim in both directions. With the empty string stored under
  \<open>old\<close>, it returns \<open>old\<close> and moves nothing. With nothing stored under
  \<open>constructor\<close>, the read yields the inherited function: the code stores it under
  \<open>new\<close>, notifies three times and returns \<open>new\<close>.
\<close>

theorem updateCredentialCacheKey_tests_truthiness:
  "containsKey \<lparr>cache = [(''old'', StringValue [])], changeEmitters = [0::nat], calls = []\<rparr> ''old'' \<and>
   payloadKey (EntityValue AccessToken ''new'') \<noteq> ''old'' \<and>
   updateCredentialCacheKey payloadKey ''old'' (EntityValue AccessToken ''new'')
     \<lparr>cache = [(''old'', StringValue [])], changeEmitters = [0::nat], calls = []\<rparr>
     = (''old'', \<lparr>cache = [(''old'', StringValue [])], changeEmitters = [0::nat], calls = []\<rparr>) \<and>
   \<not> containsKey \<lparr>cache = [], changeEmitters = [0::nat], calls = []\<rparr> ''constructor'' \<and>
   updateCredentialCacheKey payloadKey ''constructor'' (EntityValue AccessToken ''new'')
     \<lparr>cache = [], changeEmitters = [0::nat], calls = []\<rparr>
     = (''new'',
        \<lparr>cache = [(''new'', InheritedValue ''constructor'')], changeEmitters = [0::nat],
         calls = [(0, []), (0, []), (0, [(''new'', InheritedValue ''constructor'')])]\<rparr>)"
  by (simp add: updateCredentialCacheKey_def Let_def getItem_def getCache_def readProperty_def
      objectPrototypeKeys_def containsKey_def getKeys_def removeItem_def setItem_def
      setCache_def emitChange_def)

subsection \<open>setItem and removeItem\<close>



text \<open>
  Claim C4. The claim: \<^verbatim>\<open>removeItem(k)\<close> returns true exactly when \<open>k\<close> was present,
  and on an absent key it returns false, changes nothing and calls no callback. The
  code tests the truthiness of the read \<^verbatim>\<open>cache[k]\<close>, not the presence of \<open>k\<close>, and
  departs from the claim in both directions. With \<open>k\<close> present and bound to the empty
  string, it returns false and removes nothing. With the absent key \<open>constructor\<close>,
  the read yields the inherited function: it returns true and calls the callback
  twice.
\<close>

theorem removeItem_tests_truthiness:
  "containsKey \<lparr>cache = [(''k'', StringValue [])], changeEmitters = [0::nat], calls = []\<rparr> ''k'' \<and>
   removeItem ''k'' \<lparr>cache = [(''k'', StringValue [])], changeEmitters = [0::nat], calls = []\<rparr>
     = (False, \<lparr>cache = [(''k'', StringValue [])], changeEmitters = [0::nat], calls = []\<rparr>) \<and>
   \<not> containsKey \<lparr>cache = [], changeEmitters = [0::nat], calls = []\<rparr> ''constructor'' \<and>
   removeItem ''constructor'' \<lparr>cache = [], changeEmitters = [0::nat], calls = []\<rparr>
     = (True, \<lparr>cache = [], changeEmitters = [0::nat], calls = [(0, []), (0, [])]\<rparr>)"
  by (simp add: containsKey_def getKeys_def getCache_def removeItem_def readProperty_def
      objectPrototypeKeys_def setCache_def emitChange_def)

text \<open>
  Claim C10. When \<open>k\<close> is present with a truthy value and one callback is registered,
  \<^verbatim>\<open>removeItem(k)\<close> calls the callback exactly twice: once in \<^verbatim>\<open>setCache\<close> and once in
  the \<^verbatim>\<open>emitChange\<close> that follows it, both after the deletion. The hypothesis is
  the test the code makes: the read \<^verbatim>\<open>cache[k]\<close> is truthy.
\<close>

theorem removeItem_notifies_twice:
  assumes "toBoolean (getItem st key)" and "changeEmitters st = [func]"
  shows "removeItem key st = (True, emitChange (setCache (AList.delete key (getCache st)) st)) \<and>
         calls (setCache (AList.delete key (getCache st)) st) =
           calls st @ [(func, AList.delete key (getCache st))] \<and>
         calls (snd (removeItem key st)) =
           calls st @ [(func, AList.delete key (getCache st)), (func, AList.delete key (getCache st))] \<and>
         invocations func (snd (removeItem key st)) = invocations func st + 2"
  using assms
  by (simp add: removeItem_def getItem_def calls_emitChange calls_setCache cache_setCache
      changeEmitters_setCache invocations_def)

theorem removeItem_notifies_twice_witness:
  "toBoolean (getItem \<lparr>cache = [(''a'', EntityValue Account ''p''), (''b'', StringValue ''s'')],
        changeEmitters = [0::nat], calls = []\<rparr> ''a'') \<and>
   calls (snd (removeItem ''a'' \<lparr>cache = [(''a'', EntityValue Account ''p''), (''b'', StringValue ''s'')],
        changeEmitters = [0::nat], calls = []\<rparr>)) =
     [(0, [(''b'', StringValue ''s'')]), (0, [(''b'', StringValue ''s'')])] \<and>
   invocations 0 (snd (removeItem ''a'' \<lparr>cache = [(''a'', EntityValue Account ''p''), (''b'', StringValue ''s'')],
        changeEmitters = [0::nat], calls = []\<rparr>)) = 2"
  using removeItem_notifies_twice [of "\<lparr>cache = [(''a'', EntityValue Account ''p''), (''b'', StringValue ''s'')],
        changeEmitters = [0::nat], calls = []\<rparr>" "''a''" 0]
  by (simp add: getItem_def getCache_def invocations_def removeItem_def setCache_def
      emitChange_def
      readProperty_def objectPrototypeKeys_def)

subsection \<open>The bucketed view and the flat store\<close>

text \<open>
  Claim C6. \<^verbatim>\<open>cacheToInMemoryCache\<close> files every entry of the flat store in the bucket
  of the first kind, in the order Account, IdToken, AccessToken, RefreshToken,
  AppMetadata, whose class accepts it, and in no bucket when none does; the flat store
  is only read. A store with one account entity and one entity of no known class has
  a view that holds the account entry alone, while \<^verbatim>\<open>getCache\<close> still holds both.
\<close>

theorem cacheToInMemoryCache_first_accepting_kind:
  "map_of (accounts (cacheToInMemoryCache inst c)) key =
     (case map_of c key of None \<Rightarrow> None
      | Some v \<Rightarrow> if inst v Account then Some v else None) \<and>
   map_of (idTokens (cacheToInMemoryCache inst c)) key =
     (case map_of c key of None \<Rightarrow> None
      | Some v \<Rightarrow> if \<not> inst v Account \<and> inst v IdToken then Some v else None) \<and>
   map_of (accessTokens (cacheToInMemoryCache inst c)) key =
     (case map_of c key of None \<Rightarrow> None
      | Some v \<Rightarrow> if \<not> inst v Account \<and> \<not> inst v IdToken \<and> inst v AccessToken
                  then Some v else None) \<and>
   map_of (refreshTokens (cacheToInMemoryCache inst c)) key =
     (case map_of c key of None \<Rightarrow> None
      | Some v \<Rightarrow> if \<not> inst v Account \<and> \<not> inst v IdToken \<and> \<not> inst v AccessToken
                     \<and> inst v RefreshToken
                  then Some v else None) \<and>
   map_of (appMetadata (cacheToInMemoryCache inst c)) key =
     (case map_of c key of None \<Rightarrow> None
      | Some v \<Rightarrow> if \<not> inst v Account \<and> \<not> inst v IdToken \<and> \<not> inst v AccessToken
                     \<and> \<not> inst v RefreshToken \<and> inst v AppMetadata
                  then Some v else None) \<and>
   getInMemoryCache instanceOfClass
     \<lparr>cache = [(''account-key'', EntityValue Account ''a''), (''other-key'', EntityValue Unknown ''u'')],
      changeEmitters = [0::nat], calls = []\<rparr> =
     \<lparr>accounts = [(''account-key'', EntityValue Account ''a'')], idTokens = [],
      accessTokens = [], refreshTokens = [], appMetadata = []\<rparr> \<and>
   getCache
     \<lparr>cache = [(''account-key'', EntityValue Account ''a''), (''other-key'', EntityValue Unknown ''u'')],
      changeEmitters = [0::nat], calls = []\<rparr> =
     [(''account-key'', EntityValue Account ''a''), (''other-key'', EntityValue Unknown ''u'')]"
proof -
  have a: "map_of (accounts (cacheToInMemoryCache inst c)) key =
     (case map_of c key of None \<Rightarrow> None
      | Some v \<Rightarrow> if inst v Account then Some v else None)"
    unfolding cacheToInMemoryCache_def fold_classifyEntry_accounts
    by (auto simp: emptyInMemoryCache_def split: option.splits dest: key_of_Some)
  have b: "map_of (idTokens (cacheToInMemoryCache inst c)) key =
     (case map_of c key of None \<Rightarrow> None
      | Some v \<Rightarrow> if \<not> inst v Account \<and> inst v IdToken then Some v else None)"
    unfolding cacheToInMemoryCache_def fold_classifyEntry_idTokens
    by (auto simp: emptyInMemoryCache_def split: option.splits dest: key_of_Some)
  have c: "map_of (accessTokens (cacheToInMemoryCache inst c)) key =
     (case map_of c key of None \<Rightarrow> None
      | Some v \<Rightarrow> if \<not> inst v Account \<and> \<not> inst v IdToken \<and> inst v AccessToken
                  then Some v else None)"
    unfolding cacheToInMemoryCache_def fold_classifyEntry_accessTokens
    by (auto simp: emptyInMemoryCache_def split: option.splits dest: key_of_Some)
  have d: "map_of (refreshTokens (cacheToInMemoryCache inst c)) key =
     (case map_of c key of None \<Rightarrow> None
      | Some v \<Rightarrow> if \<not> inst v Account \<and> \<not> inst v IdToken \<and> \<not> inst v AccessToken
                     \<and> inst v RefreshToken
                  then Some v else None)"
    unfolding cacheToInMemoryCache_def fold_classifyEntry_refreshTokens
    by (auto simp: emptyInMemoryCache_def split: option.splits dest: key_of_Some)
  have e: "map_of (appMetadata (cacheToInMemoryCache inst c)) key =
     (case map_of c key of None \<Rightarrow> None
      | Some v \<Rightarrow> if \<not> inst v Account \<and> \<not> inst v IdToken \<and> \<not> inst v AccessToken
                     \<and> \<not> inst v RefreshToken \<and> inst v AppMetadata
                  then Some v else None)"
    unfolding cacheToInMemoryCache_def fold_classifyEntry_appMetadata
    by (auto simp: emptyInMemoryCache_def split: option.splits dest: key_of_Some)
  have f: "getInMemoryCache instanceOfClass
     \<lparr>cache = [(''account-key'', EntityValue Account ''a''), (''other-key'', EntityValue Unknown ''u'')],
      changeEmitters = [0::nat], calls = []\<rparr> =
     \<lparr>accounts = [(''account-key'', EntityValue Account ''a'')], idTokens = [],
      accessTokens = [], refreshTokens = [], appMetadata = []\<rparr>"
    by (simp add: getInMemoryCache_def getCache_def cacheToInMemoryCache_def classifyEntry_def
        emptyInMemoryCache_def)
  show ?thesis
    unfolding a b c d e f by (simp add: getCache_def)
qed

text \<open>
  Claim C8. \<^verbatim>\<open>inMemoryCacheToCache\<close> merges the current flat store and the buckets
  accounts, idTokens, accessTokens, refreshTokens, appMetadata in this order, a later
  source overriding an earlier one on a common key (\<open>++\<close> prefers its right operand);
  \<^verbatim>\<open>setInMemoryCache\<close> makes the merge the flat store.
\<close>

theorem inMemoryCacheToCache_merges_last_wins:
  "map_of (inMemoryCacheToCache inMemoryCache st) =
     map_of (getCache st) ++ map_of (accounts inMemoryCache) ++ map_of (idTokens inMemoryCache)
       ++ map_of (accessTokens inMemoryCache) ++ map_of (refreshTokens inMemoryCache)
       ++ map_of (appMetadata inMemoryCache) \<and>
   getCache (setInMemoryCache inMemoryCache st) = inMemoryCacheToCache inMemoryCache st"
  by (simp add: inMemoryCacheToCache_def map_of_spread setInMemoryCache_def getCache_def
      cache_emitChange cache_setCache)

subsection \<open>Typed getters\<close>

text \<open>
  Claim C7. With entries as tagged values and each classifier accepting valid entities
  of its own kind only, two typed getters of different kinds among Account, IdToken,
  AccessToken, RefreshToken and AppMetadata never both return an item for one key:
  if one returns a non-null value, each of the other four returns null.
\<close>

theorem typed_getters_isolated:
  "(getAccount (isAccountEntity v1) st key \<noteq> None \<longrightarrow>
      getIdTokenCredential (isIdTokenEntity v2) st key = None \<and>
      getAccessTokenCredential (isAccessTokenEntity v3) st key = None \<and>
      getRefreshTokenCredential (isRefreshTokenEntity v4) st key = None \<and>
      getAppMetadata (isAppMetadataEntity v5) st key = None) \<and>
   (getIdTokenCredential (isIdTokenEntity v2) st key \<noteq> None \<longrightarrow>
      getAccount (isAccountEntity v1) st key = None \<and>
      getAccessTokenCredential (isAccessTokenEntity v3) st key = None \<and>
      getRefreshTokenCredential (isRefreshTokenEntity v4) st key = None \<and>
      getAppMetadata (isAppMetadataEntity v5) st key = None) \<and>
   (getAccessTokenCredential (isAccessTokenEntity v3) st key \<noteq> None \<longrightarrow>
      getAccount (isAccountEntity v1) st key = None \<and>
      getIdTokenCredential (isIdTokenEntity v2) st key = None \<and>
      getRefreshTokenCredential (isRefreshTokenEntity v4) st key = None \<and>
      getAppMetadata (isAppMetadataEntity v5) st key = None) \<and>
   (getRefreshTokenCredential (isRefreshTokenEntity v4) st key \<noteq> None \<longrightarrow>
      getAccount (isAccountEntity v1) st key = None \<and>
      getIdTokenCredential (isIdTokenEntity v2) st key = None \<and>
      getAccessTokenCredential (isAccessTokenEntity v3) st key = None \<and>
      getAppMetadata (isAppMetadataEntity v5) st key = None) \<and>
   (getAppMetadata (isAppMetadataEntity v5) st key \<noteq> None \<longrightarrow>
      getAccount (isAccountEntity v1) st key = None \<and>
      getIdTokenCredential (isIdTokenEntity v2) st key = None \<and>
      getAccessTokenCredential (isAccessTokenEntity v3) st key = None \<and>
      getRefreshTokenCredential (isRefreshTokenEntity v4) st key = None)"
proof (cases "getItem st key")
  case None
  then show ?thesis
    by (simp add: getAccount_def getIdTokenCredential_def getAccessTokenCredential_def
        getRefreshTokenCredential_def getAppMetadata_def)
next
  case (Some item)
  show ?thesis
  proof (cases item)
    case (StringValue s)
    with Some show ?thesis
      by (simp add: getAccount_def getIdTokenCredential_def getAccessTokenCredential_def
          getRefreshTokenCredential_def getAppMetadata_def isAccountEntity_def
          isIdTokenEntity_def isAccessTokenEntity_def isRefreshTokenEntity_def
          isAppMetadataEntity_def)
  next
    case (InheritedValue name)
    with Some show ?thesis
      by (simp add: getAccount_def getIdTokenCredential_def getAccessTokenCredential_def
          getRefreshTokenCredential_def getAppMetadata_def isAccountEntity_def
          isIdTokenEntity_def isAccessTokenEntity_def isRefreshTokenEntity_def
          isAppMetadataEntity_def)
  next
    case (EntityValue c p)
    with Some show ?thesis
      by (cases c)
        (simp_all add: getAccount_def getIdTokenCredential_def getAccessTokenCredential_def
          getRefreshTokenCredential_def getAppMetadata_def isAccountEntity_def
          isIdTokenEntity_def isAccessTokenEntity_def isRefreshTokenEntity_def
          isAppMetadataEntity_def)
  qed
qed

theorem typed_getters_isolated_witness:
  "getAccount (isAccountEntity (\<lambda>p. True)) \<lparr>cache = [(''a'', EntityValue Account ''p''), (''b'', StringValue ''s'')],
        changeEmitters = [0::nat], calls = []\<rparr> ''a'' \<noteq> None \<and>
   getIdTokenCredential (isIdTokenEntity (\<lambda>p. True)) \<lparr>cache = [(''a'', EntityValue Account ''p''), (''b'', StringValue ''s'')],
        changeEmitters = [0::nat], calls = []\<rparr> ''a'' = None \<and>
   getAccessTokenCredential (isAccessTokenEntity (\<lambda>p. True)) \<lparr>cache = [(''a'', EntityValue Account ''p''), (''b'', StringValue ''s'')],
        changeEmitters = [0::nat], calls = []\<rparr> ''a'' = None \<and>
   getRefreshTokenCredential (isRefreshTokenEntity (\<lambda>p. True)) \<lparr>cache = [(''a'', EntityValue Account ''p''), (''b'', StringValue ''s'')],
        changeEmitters = [0::nat], calls = []\<rparr> ''a'' = None \<and>
   getAppMetadata (isAppMetadataEntity (\<lambda>k p. True)) \<lparr>cache = [(''a'', EntityValue Account ''p''), (''b'', StringValue ''s'')],
        changeEmitters = [0::nat], calls = []\<rparr> ''a'' = None"
  using typed_getters_isolated [of "\<lambda>p. True" "\<lparr>cache = [(''a'', EntityValue Account ''p''), (''b'', StringValue ''s'')],
        changeEmitters = [0::nat], calls = []\<rparr>" "''a''"
      "\<lambda>p. True" "\<lambda>p. True" "\<lambda>p. True" "\<lambda>k p. True"]
  by (simp add: getAccount_def getItem_def getCache_def isAccountEntity_def
      readProperty_def objectPrototypeKeys_def)

end
